theory Spec2Isabelle
  imports Complex_Main
begin

section \<open>littlebot: data model\<close>

text \<open>
  A naive \<^verbatim>\<open>datetime.datetime\<close> is the number of microseconds since
  0001-01-01T00:00:00, a \<^verbatim>\<open>datetime.timedelta\<close> a number of microseconds.
  The last representable datetime is 9999-12-31T23:59:59.999999; arithmetic that
  leaves the range raises \<^verbatim>\<open>OverflowError\<close>.
\<close>

type_synonym datetime = int
type_synonym timedelta = int

text \<open>
  The exceptions that leave the functions modelled here: \<open>ValueError\<close> is the one the
  constructor raises, \<open>UrlValueError\<close> the \<^verbatim>\<open>ValueError\<close> ("unknown url type") that
  \<^verbatim>\<open>urllib.request.Request\<close> raises for an address without a URL scheme.
\<close>

datatype error = ValueError | UrlValueError | OverflowError | EOFError

definition day_us :: timedelta where
  "day_us = 86400000000"

definition datetime_max :: datetime where
  "datetime_max = 3652059 * 86400000000 - 1"

definition dt_add :: "datetime \<Rightarrow> timedelta \<Rightarrow> error + datetime" where
  "dt_add t d = (if 0 \<le> t + d \<and> t + d \<le> datetime_max then Inr (t + d) else Inl OverflowError)"

text \<open>\<^verbatim>\<open>t.replace(hour=0, minute=0, second=0, microsecond=0)\<close>\<close>

definition midnight :: "datetime \<Rightarrow> datetime" where
  "midnight t = t - t mod day_us"

text \<open>
  A Python float: \<^verbatim>\<open>max_number\<close> defaults to \<^verbatim>\<open>float('inf')\<close> and the command
  line reads it with \<^verbatim>\<open>type=float\<close>. \<open>int_ge_float n x\<close> is \<^verbatim>\<open>n >= x\<close> for an
  int \<open>n\<close>.
\<close>

datatype pyfloat = Finite real | PosInf | NegInf | NaN

fun int_ge_float :: "int \<Rightarrow> pyfloat \<Rightarrow> bool" where
  "int_ge_float n (Finite x) = (x \<le> of_int n)"
| "int_ge_float n PosInf = False"
| "int_ge_float n NegInf = True"
| "int_ge_float n NaN = False"

text \<open>
  A \<^verbatim>\<open>threading.Event\<close> holds a flag. The class defines neither \<^verbatim>\<open>__bool__\<close> nor
  \<^verbatim>\<open>__len__\<close>, so the truth value of an Event object is True whatever its flag is.
\<close>

datatype event = Event bool

fun is_set :: "event \<Rightarrow> bool" where
  "is_set (Event b) = b"

fun set_event :: "event \<Rightarrow> event" where
  "set_event (Event b) = Event True"

fun truthy_event :: "event \<Rightarrow> bool" where
  "truthy_event (Event b) = True"

text \<open>
  The truth value of an optional timedelta, as in \<^verbatim>\<open>if max_time:\<close>: None is false,
  and so is \<^verbatim>\<open>timedelta(0)\<close>.
\<close>

fun truthy_timedelta :: "timedelta option \<Rightarrow> bool" where
  "truthy_timedelta None = False"
| "truthy_timedelta (Some d) = (d \<noteq> 0)"

text \<open>The fields of a \<^verbatim>\<open>RepeatingThread\<close>; \<open>interval\<close> is in seconds.\<close>

record job =
  address :: string
  interval :: real
  max_number :: pyfloat
  start_time :: datetime
  finish_time :: datetime
  stopped :: event
  number :: int
  successes :: int
  threads_alive :: int

section \<open>RepeatingThread.__init__\<close>

text \<open>
  Lines 45-51: the finish time from \<open>max_time\<close>, \<open>finish_time\<close> or the midnight that
  ends the day of \<open>start_time\<close>. Where \<^verbatim>\<open>if max_time:\<close> is true, \<open>max_time\<close> is not None.
  A datetime object is always true, so \<^verbatim>\<open>finish_time if finish_time else ...\<close> tests
  for None only.
\<close>

definition resolve_finish_time ::
  "datetime \<Rightarrow> datetime option \<Rightarrow> timedelta option \<Rightarrow> error + datetime" where
  "resolve_finish_time start finish_opt max_time =
     (if truthy_timedelta max_time then dt_add start (the max_time)
      else (case finish_opt of
              Some f \<Rightarrow> Inr f
            | None \<Rightarrow> dt_add (midnight start) day_us))"

text \<open>
  The default of the parameter \<open>start_time\<close> is the expression
  \<^verbatim>\<open>dt.datetime.now()\<close> in the \<^verbatim>\<open>def\<close> line. Python evaluates a default once,
  when the \<^verbatim>\<open>def\<close> statement runs: \<open>def_now\<close> is the clock at that moment, \<open>now\<close> the
  clock at the call. \<open>None\<close> for \<open>start_opt\<close> or \<open>ev\<close> is an omitted argument.
\<close>

definition default_start_time :: "datetime \<Rightarrow> datetime \<Rightarrow> datetime option \<Rightarrow> datetime" where
  "default_start_time def_now now start_opt =
     (case start_opt of None \<Rightarrow> def_now | Some s \<Rightarrow> s)"

definition RepeatingThread_init ::
  "datetime \<Rightarrow> datetime \<Rightarrow> string \<Rightarrow> real \<Rightarrow> datetime option \<Rightarrow> datetime option \<Rightarrow>
   timedelta option \<Rightarrow> pyfloat \<Rightarrow> event option \<Rightarrow> error + job" where
  "RepeatingThread_init def_now now addr iv start_opt finish_opt max_time maxn ev =
     (let start = default_start_time def_now now start_opt in
      case resolve_finish_time start finish_opt max_time of
        Inl e \<Rightarrow> Inl e
      | Inr fin \<Rightarrow>
          if fin < start then Inl ValueError
          else Inr \<lparr> address = addr, interval = iv, max_number = maxn,
                     start_time = start, finish_time = fin,
                     stopped = (case ev of
                                  None \<Rightarrow> Event False
                                | Some e \<Rightarrow> if truthy_event e then e else Event False),
                     number = 0, successes = 0, threads_alive = 0 \<rparr>)"

section \<open>request_address\<close>

text \<open>
  What the request of lines 95-99 did: \<open>Rejected\<close>, building the
  \<^verbatim>\<open>urllib.request.Request\<close> raised \<^verbatim>\<open>ValueError\<close>, as it does for an address without
  a URL scheme such as \<^verbatim>\<open>www.google.com\<close>; \<open>Raised\<close>, \<^verbatim>\<open>urlopen\<close> raised; \<open>Status\<close>,
  \<^verbatim>\<open>urlopen\<close> returned a response with this status. Logging changes no field of the
  job and is left out throughout.
\<close>

datatype response = Rejected | Raised | Status int

text \<open>
  Where a worker thread stands in \<^verbatim>\<open>request_address\<close>, with its local \<open>req\<close>:
  \<open>AtInc\<close> before line 94, \<open>AtOpen\<close> before line 99, \<open>AtExcept\<close> before lines 101-103,
  \<open>AtCheck\<close> before lines 104-110, \<open>AtLast\<close> before line 111. Lines 95-97 stand outside
  the \<^verbatim>\<open>try\<close>: a worker whose Request is rejected has \<open>Died\<close> of the exception.
\<close>

datatype wstate =
    AtInc
  | AtOpen
  | AtExcept
  | AtCheck int
  | AtLast int
  | Returned response
  | Died

text \<open>One statement of the worker on the shared job; \<open>r\<close> is what its request does.\<close>

fun request_address_step :: "response \<Rightarrow> job \<Rightarrow> wstate \<Rightarrow> job \<times> wstate" where
  "request_address_step r j AtInc = (j\<lparr>threads_alive := threads_alive j + 1\<rparr>, AtOpen)"
| "request_address_step r j AtOpen =
     (j, case r of Rejected \<Rightarrow> Died | Raised \<Rightarrow> AtExcept | Status s \<Rightarrow> AtCheck s)"
| "request_address_step r j AtExcept = (j\<lparr>threads_alive := threads_alive j - 1\<rparr>, Returned Raised)"
| "request_address_step r j (AtCheck s) =
     (if \<not> s = 200 then j else j\<lparr>successes := successes j + 1\<rparr>, AtLast s)"
| "request_address_step r j (AtLast s) =
     (j\<lparr>threads_alive := threads_alive j - 1\<rparr>, Returned (Status s))"
| "request_address_step r j (Returned x) = (j, Returned x)"
| "request_address_step r j Died = (j, Died)"

fun statements_left :: "wstate \<Rightarrow> nat" where
  "statements_left AtInc = 4"
| "statements_left AtOpen = 3"
| "statements_left AtExcept = 1"
| "statements_left (AtCheck s) = 2"
| "statements_left (AtLast s) = 1"
| "statements_left (Returned x) = 0"
| "statements_left Died = 0"

text \<open>
  A worker run on its own from \<open>w\<close> until it returns or dies: the job before each
  statement, then the job it leaves.
\<close>

function request_address_from :: "response \<Rightarrow> job \<Rightarrow> wstate \<Rightarrow> job list" where
  "request_address_from r j w =
     (case w of
        Returned x \<Rightarrow> [j]
      | Died \<Rightarrow> [j]
      | _ \<Rightarrow> j # request_address_from r (fst (request_address_step r j w))
                                        (snd (request_address_step r j w)))"
  by pat_completeness auto
termination
  by (relation "measure (\<lambda>(r, j, w). statements_left w)")
     (auto split: response.splits)

declare request_address_from.simps [simp del]

definition request_address :: "response \<Rightarrow> job \<Rightarrow> job" where
  "request_address r j = last (request_address_from r j AtInc)"

section \<open>RepeatingThread.run and its workers\<close>

text \<open>
  Where the scheduler thread stands in \<^verbatim>\<open>run\<close>: \<open>StartWait\<close> tests the condition of
  line 66, \<open>StartSleep\<close> is in \<^verbatim>\<open>time.sleep(1)\<close> since the given clock value,
  \<open>CheckTime\<close> and \<open>CheckCount\<close> are the operands of lines 69 and 70, \<open>Waiting\<close> is in
  \<^verbatim>\<open>self.stopped.wait(self.interval)\<close> of line 71 since the given clock value, \<open>Body\<close>
  is before lines 73-78, \<open>Drain\<close> tests line 79, \<open>DrainSleep\<close> is in
  \<^verbatim>\<open>time.sleep(0.1)\<close>, \<open>Report\<close> is before lines 81-90.
\<close>

datatype pc =
    StartWait
  | StartSleep datetime
  | CheckTime
  | CheckCount
  | Waiting datetime
  | Body
  | Drain
  | DrainSleep datetime
  | Report
  | Finished

text \<open>
  The running program: the job shared by all threads, the wall clock, the scheduler
  thread, and the worker threads in spawn order, each with its argument \<open>number\<close>.
\<close>

record system =
  master :: job
  clock :: datetime
  sched :: pc
  workers :: "(int \<times> wstate) list"

text \<open>\<^verbatim>\<open>littlebot.start()\<close> at clock value \<open>now\<close>.\<close>

definition thread_start :: "job \<Rightarrow> datetime \<Rightarrow> system" where
  "thread_start j now = \<lparr> master = j, clock = now, sched = StartWait, workers = [] \<rparr>"

text \<open>
  The scheduler thread runs its next statement. A sleep or a wait that is not over
  leaves the state as it is. \<^verbatim>\<open>Event.wait(timeout)\<close> returns True as soon as the flag is
  set and False once \<open>timeout\<close> seconds have passed on the clock. Every statement of
  a thread is one step, and lines 73-78 are one step: no other thread reads or writes
  \<open>number\<close>.
\<close>

definition run_step :: "system \<Rightarrow> system" where
  "run_step s =
     (let j = master s; now = clock s in
      case sched s of
        StartWait \<Rightarrow>
          if \<not> truthy_event (stopped j) \<and> \<not> now \<ge> start_time j
          then s\<lparr>sched := StartSleep now\<rparr> else s\<lparr>sched := CheckTime\<rparr>
      | StartSleep since \<Rightarrow>
          if 1000000 \<le> now - since then s\<lparr>sched := StartWait\<rparr> else s
      | CheckTime \<Rightarrow>
          if now \<ge> finish_time j then s\<lparr>sched := Drain\<rparr> else s\<lparr>sched := CheckCount\<rparr>
      | CheckCount \<Rightarrow>
          if int_ge_float (number j) (max_number j)
          then s\<lparr>sched := Drain\<rparr> else s\<lparr>sched := Waiting now\<rparr>
      | Waiting since \<Rightarrow>
          if is_set (stopped j) then s\<lparr>sched := Drain\<rparr>
          else if interval j * 1000000 \<le> of_int (now - since) then s\<lparr>sched := Body\<rparr>
          else s
      | Body \<Rightarrow>
          s\<lparr>master := j\<lparr>number := number j + 1\<rparr>,
            workers := workers s @ [(number j + 1, AtInc)],
            sched := CheckTime\<rparr>
      | Drain \<Rightarrow>
          if threads_alive j \<noteq> 0 then s\<lparr>sched := DrainSleep now\<rparr> else s\<lparr>sched := Report\<rparr>
      | DrainSleep since \<Rightarrow>
          if 100000 \<le> now - since then s\<lparr>sched := Drain\<rparr> else s
      | Report \<Rightarrow>
          s\<lparr>master := j\<lparr>stopped := set_event (stopped j)\<rparr>, sched := Finished\<rparr>
      | Finished \<Rightarrow> s)"

text \<open>Worker \<open>k\<close> (in spawn order, from 0) runs its next statement.\<close>

definition work_step :: "nat \<Rightarrow> response \<Rightarrow> system \<Rightarrow> system" where
  "work_step k r s =
     (if k < length (workers s)
      then s\<lparr>master := fst (request_address_step r (master s) (snd (workers s ! k))),
             workers := (workers s)[k := (fst (workers s ! k),
                           snd (request_address_step r (master s) (snd (workers s ! k))))]\<rparr>
      else s)"

text \<open>
  What can happen next: the scheduler thread moves, a worker moves (and \<open>r\<close> is what
  its request does, if that is its next statement), the clock moves by \<open>d\<close>
  microseconds, or somebody outside calls \<^verbatim>\<open>stopped.set()\<close>. A schedule is a list of
  such moves; every interleaving of the threads is some schedule. One clock serves
  \<^verbatim>\<open>datetime.now()\<close>, the sleeps and the timeout of the wait.
\<close>

datatype action = Sched | Work nat response | Tick timedelta | Cancel

fun step :: "action \<Rightarrow> system \<Rightarrow> system" where
  "step Sched s = run_step s"
| "step (Work k r) s = work_step k r s"
| "step (Tick d) s = s\<lparr>clock := clock s + d\<rparr>"
| "step Cancel s = s\<lparr>master := (master s)\<lparr>stopped := set_event (stopped (master s))\<rparr>\<rparr>"

fun exec :: "action list \<Rightarrow> system \<Rightarrow> system" where
  "exec [] s = s"
| "exec (a # as) s = exec as (step a s)"

section \<open>repeat_request\<close>

text \<open>
  \<^verbatim>\<open>str.lower\<close> on the ASCII letters: an upper-case letter (65 to 90) has bit 5 clear,
  and adding 32 sets it. \<open>startswith s ps\<close> is \<^verbatim>\<open>s.startswith(ps)\<close> for a tuple \<open>ps\<close>.
\<close>

fun lower_char :: "char \<Rightarrow> char" where
  "lower_char (Char b0 b1 b2 b3 b4 b5 b6 b7) =
     (if 65 \<le> (of_char (Char b0 b1 b2 b3 b4 b5 b6 b7) :: nat)
        \<and> (of_char (Char b0 b1 b2 b3 b4 b5 b6 b7) :: nat) \<le> 90
      then Char b0 b1 b2 b3 b4 True b6 b7
      else Char b0 b1 b2 b3 b4 b5 b6 b7)"

definition lower :: "string \<Rightarrow> string" where
  "lower s = map lower_char s"

definition startswith :: "string \<Rightarrow> string list \<Rightarrow> bool" where
  "startswith s ps = list_ex (\<lambda>p. take (length p) s = p) ps"

text \<open>
  The operator's typed lines are a list; \<^verbatim>\<open>input()\<close> takes the next one and raises
  \<^verbatim>\<open>EOFError\<close> when none is left. Lines 127-131: the loop that asks again after a
  network failure keeps the new answer as typed. Lines 147-151: the loop after a
  non-200 status lowers it.
\<close>

fun reask_tca :: "string \<Rightarrow> string list \<Rightarrow> error + (string \<times> string list)" where
  "reask_tca answer [] =
     (if \<not> startswith answer [''t'', ''c'', ''a''] then Inl EOFError else Inr (answer, []))"
| "reask_tca answer (a # rest) =
     (if \<not> startswith answer [''t'', ''c'', ''a''] then reask_tca a rest
      else Inr (answer, a # rest))"

fun reask_yn :: "string \<Rightarrow> string list \<Rightarrow> error + (string \<times> string list)" where
  "reask_yn answer [] =
     (if \<not> startswith answer [''y'', ''n''] then Inl EOFError else Inr (answer, []))"
| "reask_yn answer (a # rest) =
     (if \<not> startswith answer [''y'', ''n''] then reask_yn (lower a) rest
      else Inr (answer, a # rest))"

text \<open>
  Lines 158-163: the Event, the RepeatingThread and its \<^verbatim>\<open>start()\<close>. \<open>Inr (Some j)\<close> is
  the started thread that is returned, \<open>Inl e\<close> an exception out of the constructor.
\<close>

definition start_littlebot ::
  "datetime \<Rightarrow> datetime \<Rightarrow> string \<Rightarrow> real \<Rightarrow> datetime \<Rightarrow> datetime option \<Rightarrow>
   timedelta option \<Rightarrow> pyfloat \<Rightarrow> error + job option" where
  "start_littlebot def_now now addr iv start fin mt mn =
     (case RepeatingThread_init def_now now addr iv (Some start) fin mt mn (Some (Event False)) of
        Inl e \<Rightarrow> Inl e
      | Inr j \<Rightarrow> Inr (Some j))"

text \<open>
  \<open>net k\<close> is what the \<open>k\<close>-th probe does, \<open>ins\<close> the lines the operator has yet to
  type. \<open>Inr None\<close> is the plain \<^verbatim>\<open>return\<close> of lines 137 and 155. The Request of line
  117 stands outside the \<^verbatim>\<open>try\<close>, so its \<^verbatim>\<open>ValueError\<close> leaves the function.
\<close>

function repeat_request ::
  "datetime \<Rightarrow> datetime \<Rightarrow> (nat \<Rightarrow> response) \<Rightarrow> nat \<Rightarrow> string list \<Rightarrow>
   string \<Rightarrow> real \<Rightarrow> datetime \<Rightarrow> datetime option \<Rightarrow> timedelta option \<Rightarrow> pyfloat \<Rightarrow>
   error + job option" where
  "repeat_request def_now now net k ins addr iv start fin mt mn =
     (case net k of
        Rejected \<Rightarrow> Inl UrlValueError
      | Raised \<Rightarrow>
          (case ins of
             [] \<Rightarrow> Inl EOFError
           | a # rest \<Rightarrow>
               (case reask_tca (lower a) rest of
                  Inl e \<Rightarrow> Inl e
                | Inr (answer, rest') \<Rightarrow>
                    if startswith answer [''c'']
                    then start_littlebot def_now now addr iv start fin mt mn
                    else if startswith answer [''a''] then Inr None
                    else repeat_request def_now now net (Suc k) rest' addr iv start fin mt mn))
      | Status st \<Rightarrow>
          if \<not> st = 200 then
            (case ins of
               [] \<Rightarrow> Inl EOFError
             | a # rest \<Rightarrow>
                 (case reask_yn (lower a) rest of
                    Inl e \<Rightarrow> Inl e
                  | Inr (answer, rest') \<Rightarrow>
                      if startswith answer [''y'']
                      then start_littlebot def_now now addr iv start fin mt mn
                      else Inr None))
          else start_littlebot def_now now addr iv start fin mt mn)"
  by pat_completeness auto
termination
proof -
  have shorter: "length rest \<le> length ins"
    if "reask_tca answer ins = Inr (answer', rest)" for answer ins answer' rest
    using that by (induction ins arbitrary: answer) (auto split: if_splits intro: le_SucI)
  show ?thesis
    by (relation "measure (\<lambda>(def_now, now, net, k, ins, addr, iv, start, fin, mt, mn). length ins)")
       (auto dest: shorter)
qed

declare repeat_request.simps [simp del]

section \<open>Predicates on states and schedules\<close>

text \<open>
  A worker is in flight after its line 94 and until it decrements \<open>threads_alive\<close>,
  which a worker that died never does; it has succeeded once it has run the
  \<^verbatim>\<open>else\<close> branch of line 108.
\<close>

fun in_flight :: "wstate \<Rightarrow> bool" where
  "in_flight AtInc = False"
| "in_flight AtOpen = True"
| "in_flight AtExcept = True"
| "in_flight (AtCheck s) = True"
| "in_flight (AtLast s) = True"
| "in_flight (Returned x) = False"
| "in_flight Died = True"

fun succeeded :: "wstate \<Rightarrow> bool" where
  "succeeded (AtLast s) = (s = 200)"
| "succeeded (Returned x) = (x = Status 200)"
| "succeeded w = False"

definition how_many :: "(wstate \<Rightarrow> bool) \<Rightarrow> (int \<times> wstate) list \<Rightarrow> int" where
  "how_many P ws = int (length (filter (\<lambda>w. P (snd w)) ws))"

definition consistent :: "system \<Rightarrow> bool" where
  "consistent s =
     (number (master s) = int (length (workers s))
      \<and> map fst (workers s) = [1..number (master s)]
      \<and> threads_alive (master s) = how_many in_flight (workers s)
      \<and> successes (master s) = how_many succeeded (workers s))"



fun clock_after :: "action \<Rightarrow> datetime \<Rightarrow> datetime" where
  "clock_after (Tick d) c = c + d"
| "clock_after a c = c"










text \<open>
  \<open>steady_clock sch\<close>: the clock never goes back. \<open>paced t0 s\<close>: since clock value
  \<open>t0\<close> one interval has passed for every attempt counted, and for the attempt about
  to be counted when the wait of line 71 has timed out.
\<close>

fun steady_clock :: "action list \<Rightarrow> bool" where
  "steady_clock [] = True"
| "steady_clock (Tick d # as) = (0 \<le> d \<and> steady_clock as)"
| "steady_clock (a # as) = steady_clock as"

definition paced :: "datetime \<Rightarrow> system \<Rightarrow> bool" where
  "paced t0 s =
     (of_int (number (master s)) * (interval (master s) * 1000000) \<le> of_int (clock s - t0)
      \<and> (case sched s of
            Waiting since \<Rightarrow>
              of_int (number (master s)) * (interval (master s) * 1000000) \<le> of_int (since - t0)
          | Body \<Rightarrow>
              (of_int (number (master s)) + 1) * (interval (master s) * 1000000)
                \<le> of_int (clock s - t0)
          | _ \<Rightarrow> True))"

section \<open>The loop as the specification words it\<close>

text \<open>
  The specification's loop, in its own order: on each tick check cancellation, then
  current time against the finish time, then attempts against the maximum; if none
  holds, increment the attempt counter, spawn a worker for this attempt, then wait up to
  \<open>interval\<close> seconds for a cancellation signal, waking early only on cancellation.
  The state and the moves of workers, clock and outside world are those of the code.
\<close>

datatype spec_pc =
    SpecCheckCancel
  | SpecCheckTime
  | SpecCheckCount
  | SpecIncrement
  | SpecSpawn
  | SpecWaiting datetime
  | SpecLeft

record spec_system =
  spec_master :: job
  spec_clock :: datetime
  spec_sched :: spec_pc
  spec_workers :: "(int \<times> wstate) list"

definition spec_loop_start :: "job \<Rightarrow> datetime \<Rightarrow> spec_system" where
  "spec_loop_start j now =
     \<lparr> spec_master = j, spec_clock = now, spec_sched = SpecCheckCancel, spec_workers = [] \<rparr>"

definition spec_loop_step :: "spec_system \<Rightarrow> spec_system" where
  "spec_loop_step s =
     (let j = spec_master s; now = spec_clock s in
      case spec_sched s of
        SpecCheckCancel \<Rightarrow>
          if is_set (stopped j) then s\<lparr>spec_sched := SpecLeft\<rparr>
          else s\<lparr>spec_sched := SpecCheckTime\<rparr>
      | SpecCheckTime \<Rightarrow>
          if now \<ge> finish_time j then s\<lparr>spec_sched := SpecLeft\<rparr>
          else s\<lparr>spec_sched := SpecCheckCount\<rparr>
      | SpecCheckCount \<Rightarrow>
          if int_ge_float (number j) (max_number j) then s\<lparr>spec_sched := SpecLeft\<rparr>
          else s\<lparr>spec_sched := SpecIncrement\<rparr>
      | SpecIncrement \<Rightarrow>
          s\<lparr>spec_master := j\<lparr>number := number j + 1\<rparr>, spec_sched := SpecSpawn\<rparr>
      | SpecSpawn \<Rightarrow>
          s\<lparr>spec_workers := spec_workers s @ [(number j, AtInc)], spec_sched := SpecWaiting now\<rparr>
      | SpecWaiting since \<Rightarrow>
          if is_set (stopped j) then s\<lparr>spec_sched := SpecCheckCancel\<rparr>
          else if interval j * 1000000 \<le> of_int (now - since)
          then s\<lparr>spec_sched := SpecCheckCancel\<rparr>
          else s
      | SpecLeft \<Rightarrow> s)"

definition spec_work_step :: "nat \<Rightarrow> response \<Rightarrow> spec_system \<Rightarrow> spec_system" where
  "spec_work_step k r s =
     (if k < length (spec_workers s)
      then s\<lparr>spec_master :=
               fst (request_address_step r (spec_master s) (snd (spec_workers s ! k))),
             spec_workers := (spec_workers s)[k := (fst (spec_workers s ! k),
               snd (request_address_step r (spec_master s) (snd (spec_workers s ! k))))]\<rparr>
      else s)"

fun spec_step :: "action \<Rightarrow> spec_system \<Rightarrow> spec_system" where
  "spec_step Sched s = spec_loop_step s"
| "spec_step (Work k r) s = spec_work_step k r s"
| "spec_step (Tick d) s = s\<lparr>spec_clock := spec_clock s + d\<rparr>"
| "spec_step Cancel s =
     s\<lparr>spec_master := (spec_master s)\<lparr>stopped := set_event (stopped (spec_master s))\<rparr>\<rparr>"

fun spec_exec :: "action list \<Rightarrow> spec_system \<Rightarrow> spec_system" where
  "spec_exec [] s = s"
| "spec_exec (a # as) s = spec_exec as (spec_step a s)"

text \<open>
  \<open>time_passed\<close>: in the current iteration the test of line 69 was false.
  \<open>two_intervals t0 s\<close>: the run is paced from \<open>t0\<close>, has counted at most two attempts,
  and counts another only while fewer than two intervals' worth are counted.
\<close>

fun time_passed :: "pc \<Rightarrow> bool" where
  "time_passed CheckCount = True"
| "time_passed (Waiting t) = True"
| "time_passed Body = True"
| "time_passed p = False"

definition two_intervals :: "datetime \<Rightarrow> system \<Rightarrow> bool" where
  "two_intervals t0 s =
     (paced t0 s \<and> 0 \<le> number (master s) \<and> number (master s) \<le> 2
      \<and> (time_passed (sched s) \<longrightarrow>
            of_int (number (master s)) * (interval (master s) * 1000000)
              < 2 * (interval (master s) * 1000000)))"

section \<open>The counters count the workers\<close>

lemma how_many_append: "how_many P (xs @ ys) = how_many P xs + how_many P ys"
  by (simp add: how_many_def)

lemma how_many_update:
  "k < length ws \<Longrightarrow>
   how_many P (ws[k := (n, w)]) = how_many P ws - of_bool (P (snd (ws ! k))) + of_bool (P w)"
proof (induction ws arbitrary: k)
  case Nil
  then show ?case by simp
next
  case (Cons a ws)
  then show ?case by (cases k) (auto simp: how_many_def)
qed


lemma map_fst_update: "k < length ws \<Longrightarrow> map fst (ws[k := (fst (ws ! k), w)]) = map fst ws"
  by (simp add: map_update list_update_same_conv)

lemma request_address_step_fields:
  "address (fst (request_address_step r j w)) = address j"
  "interval (fst (request_address_step r j w)) = interval j"
  "max_number (fst (request_address_step r j w)) = max_number j"
  "start_time (fst (request_address_step r j w)) = start_time j"
  "finish_time (fst (request_address_step r j w)) = finish_time j"
  "stopped (fst (request_address_step r j w)) = stopped j"
  "number (fst (request_address_step r j w)) = number j"
  by (cases w; simp)+

lemma request_address_step_alive:
  "threads_alive (fst (request_address_step r j w)) =
     threads_alive j - of_bool (in_flight w) + of_bool (in_flight (snd (request_address_step r j w)))"
  by (cases w; cases r; simp)

lemma request_address_step_successes:
  "successes (fst (request_address_step r j w)) =
     successes j - of_bool (succeeded w) + of_bool (succeeded (snd (request_address_step r j w)))"
  by (cases w; cases r; simp)

lemma consistent_work: "consistent s \<Longrightarrow> consistent (work_step k r s)"
  unfolding consistent_def work_step_def
  by (simp add: how_many_update map_fst_update request_address_step_fields
                request_address_step_alive request_address_step_successes)

lemma consistent_run: "consistent s \<Longrightarrow> consistent (run_step s)"
  unfolding consistent_def run_step_def
  by (cases "sched s") (simp_all add: Let_def how_many_append how_many_def upto_rec2)

lemma consistent_step: "consistent s \<Longrightarrow> consistent (step a s)"
  by (cases a) (simp_all add: consistent_work consistent_run, simp_all add: consistent_def)

lemma consistent_exec: "consistent s \<Longrightarrow> consistent (exec sch s)"
  by (induction sch arbitrary: s) (simp_all add: consistent_step)

lemma init_counters:
  assumes "RepeatingThread_init def_now now0 addr iv start_opt finish_opt max_time maxn ev = Inr j"
  shows "number j = 0" "successes j = 0" "threads_alive j = 0" "max_number j = maxn"
    "interval j = iv" "finish_time j \<ge> start_time j"
  using assms
  by (auto simp: RepeatingThread_init_def Let_def split: sum.splits if_splits)

lemma consistent_start:
  "number j = 0 \<Longrightarrow> successes j = 0 \<Longrightarrow> threads_alive j = 0 \<Longrightarrow> consistent (thread_start j now)"
  by (simp add: consistent_def thread_start_def how_many_def)

section \<open>Fields the threads leave alone\<close>

lemma work_step_fields:
  "max_number (master (work_step k r s)) = max_number (master s)"
  "finish_time (master (work_step k r s)) = finish_time (master s)"
  "start_time (master (work_step k r s)) = start_time (master s)"
  "interval (master (work_step k r s)) = interval (master s)"
  "stopped (master (work_step k r s)) = stopped (master s)"
  "number (master (work_step k r s)) = number (master s)"
  "sched (work_step k r s) = sched s"
  "clock (work_step k r s) = clock s"
  by (simp_all add: work_step_def request_address_step_fields)

lemma run_step_fields:
  "max_number (master (run_step s)) = max_number (master s)"
  "finish_time (master (run_step s)) = finish_time (master s)"
  "start_time (master (run_step s)) = start_time (master s)"
  "interval (master (run_step s)) = interval (master s)"
  "clock (run_step s) = clock s"
  by (cases "sched s"; simp add: run_step_def Let_def)+

lemma step_fields:
  "max_number (master (step a s)) = max_number (master s)"
  "finish_time (master (step a s)) = finish_time (master s)"
  "start_time (master (step a s)) = start_time (master s)"
  "interval (master (step a s)) = interval (master s)"
  "clock (step a s) = clock_after a (clock s)"
  by (cases a; simp add: work_step_fields run_step_fields)+

lemma exec_fields:
  "max_number (master (exec sch s)) = max_number (master s)"
  "finish_time (master (exec sch s)) = finish_time (master s)"
  "start_time (master (exec sch s)) = start_time (master s)"
  "interval (master (exec sch s)) = interval (master s)"
  by (induction sch arbitrary: s; simp add: step_fields)+


section \<open>Counting attempts\<close>



section \<open>The wait for the start time\<close>

lemma start_wait_never_sleeps: "sched s = StartWait \<Longrightarrow> run_step s = s\<lparr>sched := CheckTime\<rparr>"
  by (cases "stopped (master s)") (simp add: run_step_def)

text \<open>
  Claim C1, at a job whose start time is ten seconds after the thread starts, with an
  interval of one second and the flag never set. The condition of line 66 is false at
  once, because \<^verbatim>\<open>not self.stopped\<close> tests the Event object and not its flag; the
  scheduler goes on to the loop of line 68, and after the first wait of one interval it
  spawns worker 1 while the clock (one second) is still nine seconds short of the start
  time.
\<close>

theorem run_spawns_before_start_time:
  "case RepeatingThread_init 0 0 ''http://x'' 1 (Some 10000000) (Some 60000000) None PosInf None of
     Inl e \<Rightarrow> False
   | Inr j \<Rightarrow>
       sched (exec [Sched] (thread_start j 0)) = CheckTime
       \<and> clock (exec [Sched, Sched, Sched, Tick 1000000, Sched, Sched] (thread_start j 0)) = 1000000
       \<and> start_time (master (exec [Sched, Sched, Sched, Tick 1000000, Sched, Sched]
            (thread_start j 0))) = 10000000
       \<and> \<not> is_set (stopped (master (exec [Sched, Sched, Sched, Tick 1000000, Sched, Sched]
            (thread_start j 0))))
       \<and> workers (exec [Sched, Sched, Sched, Tick 1000000, Sched, Sched] (thread_start j 0))
            = [(1, AtInc)]"
  by (simp add: RepeatingThread_init_def default_start_time_def resolve_finish_time_def
                thread_start_def run_step_def)

section \<open>The constructor\<close>

text \<open>
  What the constructor resolves when it returns a job: a \<open>max_time\<close> other than zero
  wins, then an explicit finish time, then the midnight that ends the start day.
\<close>

lemma finish_time_priority:
  assumes "RepeatingThread_init def_now now addr iv start_opt finish_opt max_time maxn ev = Inr j"
  shows "start_time j = default_start_time def_now now start_opt"
    and "max_time = Some d \<Longrightarrow> d \<noteq> 0 \<Longrightarrow> finish_time j = start_time j + d"
    and "max_time = None \<Longrightarrow> finish_opt = Some f \<Longrightarrow> finish_time j = f"
    and "max_time = None \<Longrightarrow> finish_opt = None \<Longrightarrow>
           finish_time j = midnight (start_time j) + day_us"
  using assms
  by (auto simp: RepeatingThread_init_def resolve_finish_time_def dt_add_def Let_def
           split: sum.splits if_splits)

text \<open>
  Claim C3, at \<open>max_time = timedelta(0)\<close> given together with a finish time of 8 s and a
  start time of 5 s. \<^verbatim>\<open>if max_time:\<close> is false for the zero duration, so the finish
  time is the explicit 8 s and not start time plus \<open>max_time\<close>, which is 5 s; with no
  explicit finish time it is the next midnight.
\<close>

theorem zero_max_time_does_not_override:
  "map_sum id finish_time
     (RepeatingThread_init 0 0 ''http://x'' 1 (Some 5000000) (Some 8000000) (Some 0) PosInf None)
     = Inr 8000000
   \<and> map_sum id finish_time
     (RepeatingThread_init 0 0 ''http://x'' 1 (Some 5000000) None (Some 0) PosInf None)
     = Inr 86400000000"
  by (simp add: RepeatingThread_init_def default_start_time_def resolve_finish_time_def
                dt_add_def datetime_max_def midnight_def day_us_def)

text \<open>
  Claim C9, at two constructions without \<open>start_time\<close>, one when the clock reads 9 s and
  one when it reads 20 s, of a class whose \<^verbatim>\<open>def\<close> ran when the clock read 5 s. Both
  jobs get the start time 5 s.
\<close>

theorem omitted_start_time_is_definition_time:
  "map_sum id start_time
     (RepeatingThread_init 5000000 9000000 ''http://x'' 1 None None None PosInf None)
     = Inr 5000000
   \<and> map_sum id start_time
     (RepeatingThread_init 5000000 20000000 ''http://x'' 1 None None None PosInf None)
     = Inr 5000000"
  by (simp add: RepeatingThread_init_def default_start_time_def resolve_finish_time_def
                dt_add_def datetime_max_def midnight_def day_us_def)

section \<open>One worker\<close>

lemma request_address_from_Raised:
  "request_address_from Raised j AtInc =
     [j, j\<lparr>threads_alive := threads_alive j + 1\<rparr>, j\<lparr>threads_alive := threads_alive j + 1\<rparr>,
      j\<lparr>threads_alive := threads_alive j + 1 - 1\<rparr>]"
  by (simp add: request_address_from.simps)

lemma request_address_from_Status:
  "request_address_from (Status st) j AtInc =
     [j, j\<lparr>threads_alive := threads_alive j + 1\<rparr>, j\<lparr>threads_alive := threads_alive j + 1\<rparr>,
      (if \<not> st = 200 then j\<lparr>threads_alive := threads_alive j + 1\<rparr>
       else j\<lparr>threads_alive := threads_alive j + 1, successes := successes j + 1\<rparr>),
      (if \<not> st = 200 then j\<lparr>threads_alive := threads_alive j + 1 - 1\<rparr>
       else j\<lparr>threads_alive := threads_alive j + 1 - 1, successes := successes j + 1\<rparr>)]"
  by (simp add: request_address_from.simps)

lemma request_address_from_Rejected:
  "request_address_from Rejected j AtInc =
     [j, j\<lparr>threads_alive := threads_alive j + 1\<rparr>, j\<lparr>threads_alive := threads_alive j + 1\<rparr>]"
  by (simp add: request_address_from.simps)

text \<open>
  On the three paths through \<^verbatim>\<open>urlopen\<close> a worker run from its first statement
  leaves these values of \<open>threads_alive\<close> behind, statement by statement: one increment
  at the start and one decrement at the end, on the exception path (four states) and
  on the status paths (five states) alike; \<open>successes\<close> moves only on status 200.
\<close>

lemma worker_counter_balanced:
  "r \<noteq> Rejected \<Longrightarrow>
   map threads_alive (request_address_from r j AtInc) =
     (case r of
        Raised \<Rightarrow> [threads_alive j, threads_alive j + 1, threads_alive j + 1, threads_alive j]
      | Status st \<Rightarrow> [threads_alive j, threads_alive j + 1, threads_alive j + 1,
                      threads_alive j + 1, threads_alive j])
   \<and> map successes (request_address_from r j AtInc) =
     (case r of
        Raised \<Rightarrow> [successes j, successes j, successes j, successes j]
      | Status st \<Rightarrow> [successes j, successes j, successes j,
                      successes j + of_bool (st = 200), successes j + of_bool (st = 200)])
   \<and> threads_alive (request_address r j) = threads_alive j
   \<and> successes (request_address r j) = successes j + of_bool (r = Status 200)"
  by (cases r)
     (simp_all add: request_address_def request_address_from_Raised request_address_from_Status)

text \<open>
  When workers run interleaved with the scheduler and with each other, in any order,
  \<open>threads_alive\<close> is in every state the number of workers that have counted
  themselves in and not out.
\<close>

lemma threads_alive_counts_in_flight:
  assumes "RepeatingThread_init def_now now0 addr iv start_opt finish_opt max_time maxn ev = Inr j"
  shows "threads_alive (master (exec sch (thread_start j now)))
           = how_many in_flight (workers (exec sch (thread_start j now)))"
proof -
  have "consistent (exec sch (thread_start j now))"
    using init_counters [OF assms] by (intro consistent_exec consistent_start)
  then show ?thesis by (simp add: consistent_def)
qed

text \<open>
  Claim C8, at a worker of \<^verbatim>\<open>RepeatingThread('www.google.com', 1, ...)\<close>, an address
  without a URL scheme. Line 94 counts the worker in; building the Request in line 95
  raises \<^verbatim>\<open>ValueError\<close> outside the \<^verbatim>\<open>try\<close>, and the thread ends there: \<open>threads_alive\<close>
  goes from 0 to 1 and is never decremented. In the running program with
  \<open>max_number = 1\<close> the drain test of line 79 then finds \<open>threads_alive = 1\<close> each time
  and the scheduler sleeps again.
\<close>

theorem rejected_request_is_never_counted_out:
  "map threads_alive (request_address_from Rejected
      \<lparr>address = ''www.google.com'', interval = 1, max_number = Finite 1, start_time = 0,
       finish_time = 60000000, stopped = Event False, number = 1, successes = 0,
       threads_alive = 0\<rparr> AtInc) = [0, 1, 1]
   \<and> threads_alive (request_address Rejected
      \<lparr>address = ''www.google.com'', interval = 1, max_number = Finite 1, start_time = 0,
       finish_time = 60000000, stopped = Event False, number = 1, successes = 0,
       threads_alive = 0\<rparr>) = 1
   \<and> (case RepeatingThread_init 0 0 ''www.google.com'' 1 (Some 0) (Some 60000000) None
              (Finite 1) None of
         Inl e \<Rightarrow> False
       | Inr j \<Rightarrow>
           exec [Sched, Sched, Sched, Tick 1000000, Sched, Sched, Work 0 Rejected, Work 0 Rejected,
                 Sched, Sched, Sched, Tick 100000, Sched, Sched] (thread_start j 0)
             = \<lparr>master = j\<lparr>number := 1, threads_alive := 1\<rparr>, clock = 1100000,
                sched = DrainSleep 1100000, workers = [(1, Died)]\<rparr>)"
  by (simp add: request_address_def request_address_from_Rejected RepeatingThread_init_def
                default_start_time_def resolve_finish_time_def thread_start_def run_step_def
                work_step_def)

section \<open>A finish time before the start time\<close>

lemma reask_tca_error: "reask_tca answer rest = Inl e \<Longrightarrow> e = EOFError"
  by (induction rest arbitrary: answer) (auto split: if_splits)

lemma reask_yn_error: "reask_yn answer rest = Inl e \<Longrightarrow> e = EOFError"
  by (induction rest arbitrary: answer) (auto split: if_splits)

lemma repeat_request_without_start:
  "start_littlebot def_now now addr iv start fin mt mn = Inl ValueError \<Longrightarrow>
   repeat_request def_now now net k ins addr iv start fin mt mn
     \<in> {Inl ValueError, Inl UrlValueError, Inl EOFError, Inr None}"
proof (induction def_now now net k ins addr iv start fin mt mn rule: repeat_request.induct)
  case (1 def_now now net k ins addr iv start fin mt mn)
  show ?case
    using 1
    by (subst repeat_request.simps)
       (auto split: response.splits list.splits sum.splits prod.splits
             dest: reask_tca_error reask_yn_error)
qed

text \<open>
  Claim C2. When the finish time resolved from the arguments is earlier than the start
  time, the constructor raises \<^verbatim>\<open>ValueError\<close>, whether the start time was passed or
  defaulted; and \<^verbatim>\<open>repeat_request\<close> with such arguments never returns a started thread,
  whatever the probe and the operator do: it raises that \<^verbatim>\<open>ValueError\<close>, or the one
  of a rejected address, or \<^verbatim>\<open>EOFError\<close> from a prompt, or returns None.
\<close>

theorem finish_before_start_rejected:
  assumes "resolve_finish_time start finish_opt max_time = Inr fin" "fin < start"
  shows "RepeatingThread_init def_now now addr iv (Some start) finish_opt max_time maxn ev
           = Inl ValueError
         \<and> RepeatingThread_init start now addr iv None finish_opt max_time maxn ev
           = Inl ValueError
         \<and> repeat_request def_now now net k ins addr iv start finish_opt max_time maxn
           \<in> {Inl ValueError, Inl UrlValueError, Inl EOFError, Inr None}"
proof -
  have ctor: "RepeatingThread_init d now addr iv (Some start) finish_opt max_time maxn e
           = Inl ValueError" for d e
    using assms by (simp add: RepeatingThread_init_def default_start_time_def)
  have ctor': "RepeatingThread_init start now addr iv None finish_opt max_time maxn ev
           = Inl ValueError"
    using assms by (simp add: RepeatingThread_init_def default_start_time_def)
  have "start_littlebot def_now now addr iv start finish_opt max_time maxn = Inl ValueError"
    by (simp add: start_littlebot_def ctor)
  then show ?thesis using ctor ctor' repeat_request_without_start by blast
qed

theorem finish_before_start_rejected_witness:
  "resolve_finish_time 9000000 (Some 3000000) None = Inr 3000000 \<and> (3000000::int) < 9000000
   \<and> RepeatingThread_init 0 0 ''http://x'' 1 (Some 9000000) (Some 3000000) None PosInf None
        = Inl ValueError
   \<and> repeat_request 0 0 (\<lambda>k. Status 200) 0 [] ''http://x'' 1 9000000 (Some 3000000) None PosInf
        = Inl ValueError"
proof -
  have h: "resolve_finish_time 9000000 (Some 3000000) None = Inr 3000000"
    by (simp add: resolve_finish_time_def)
  have l: "(3000000::int) < 9000000" by simp
  have r: "repeat_request 0 0 (\<lambda>k. Status 200) 0 [] ''http://x'' 1 9000000 (Some 3000000) None PosInf
        \<notin> {Inl UrlValueError, Inl EOFError, Inr None}"
    by (simp add: repeat_request.simps start_littlebot_def RepeatingThread_init_def
          default_start_time_def resolve_finish_time_def)
  show ?thesis
    using h l r finish_before_start_rejected [OF h l, of 0 0 "''http://x''" 1 PosInf None
        "\<lambda>k. Status 200" 0 "[]"]
    by simp
qed

section \<open>The initial probe\<close>

text \<open>
  Claim C10. If the probe raises and the answer the prompt loop settles on starts with
  \<open>a\<close>, or the probe returns a status other than 200 and the answer settled on starts
  with \<open>n\<close>, \<^verbatim>\<open>repeat_request\<close> returns None: it does not raise, and it does not reach
  the constructor or \<^verbatim>\<open>start()\<close> of lines 158-163, whose only results are a started
  thread or an exception. An answer starting with \<open>t\<close> probes again with the lines
  still to be typed, so the same holds for an abort after any number of retries.
\<close>

theorem operator_abort_returns_none:
  "(net k = Raised \<and> reask_tca (lower a) rest = Inr (answer, rest') \<and> startswith answer [''a'']
      \<longrightarrow> repeat_request def_now now net k (a # rest) addr iv start fin mt mn = Inr None)
   \<and> (net k = Status st \<and> st \<noteq> 200 \<and> reask_yn (lower a) rest = Inr (answer, rest')
       \<and> startswith answer [''n'']
      \<longrightarrow> repeat_request def_now now net k (a # rest) addr iv start fin mt mn = Inr None)
   \<and> (net k = Raised \<and> reask_tca (lower a) rest = Inr (answer, rest') \<and> startswith answer [''t'']
      \<longrightarrow> repeat_request def_now now net k (a # rest) addr iv start fin mt mn
          = repeat_request def_now now net (Suc k) rest' addr iv start fin mt mn)"
  by (subst repeat_request.simps, subst (2) repeat_request.simps, subst (3) repeat_request.simps)
     (auto simp: startswith_def)

theorem operator_abort_returns_none_witness:
  "repeat_request 0 0 (\<lambda>k. Raised) 0 [''Try'', ''maybe'', ''Abort'', ''a'', ''c'']
      ''http://x'' 1 0 None None PosInf = Inr None
   \<and> repeat_request 0 0 (\<lambda>k. Status 404) 0 [''what'', ''No'', ''y'']
      ''http://x'' 1 0 None None PosInf = Inr None"
proof -
  have t: "reask_tca (lower ''Try'') [''maybe'', ''Abort'', ''a'', ''c'']
             = Inr (''try'', [''maybe'', ''Abort'', ''a'', ''c''])"
    by (simp add: lower_def startswith_def)
  have a: "reask_tca (lower ''maybe'') [''Abort'', ''a'', ''c''] = Inr (''a'', [''c''])"
    by (simp add: lower_def startswith_def)
  have n: "reask_yn (lower ''what'') [''No'', ''y''] = Inr (''no'', [''y''])"
    by (simp add: lower_def startswith_def)
  have s: "startswith ''try'' [''t'']" "startswith ''a'' [''a'']" "startswith ''no'' [''n'']"
    by (simp_all add: startswith_def)
  show ?thesis
    using t a n s
      operator_abort_returns_none [where net = "\<lambda>k. Raised" and k = 0 and a = "''Try''"
        and rest = "[''maybe'', ''Abort'', ''a'', ''c'']" and answer = "''try''"
        and rest' = "[''maybe'', ''Abort'', ''a'', ''c'']" and def_now = 0 and now = 0
        and addr = "''http://x''" and iv = 1 and start = 0 and fin = None and mt = None
        and mn = PosInf]
      operator_abort_returns_none [where net = "\<lambda>k. Raised" and k = 1 and a = "''maybe''"
        and rest = "[''Abort'', ''a'', ''c'']" and answer = "''a''" and rest' = "[''c'']"
        and def_now = 0 and now = 0 and addr = "''http://x''" and iv = 1 and start = 0
        and fin = None and mt = None and mn = PosInf]
      operator_abort_returns_none [where net = "\<lambda>k. Status 404" and k = 0 and st = 404
        and a = "''what''" and rest = "[''No'', ''y'']" and answer = "''no''" and rest' = "[''y'']"
        and def_now = 0 and now = 0 and addr = "''http://x''" and iv = 1 and start = 0
        and fin = None and mt = None and mn = PosInf]
    by simp
qed

section \<open>The limit on the number of requests\<close>
























section \<open>The order of one iteration\<close>

lemma paced_step:
  "paced t0 s \<Longrightarrow> steady_clock [a] \<Longrightarrow> paced t0 (step a s)"
proof (cases a)
  case Sched
  assume "paced t0 s"
  then show ?thesis using Sched
    by (cases "sched s") (auto simp: paced_def run_step_def Let_def algebra_simps)
next
  case (Work k r)
  assume "paced t0 s"
  then show ?thesis using Work
    by (cases "sched s") (simp_all add: paced_def work_step_fields)
next
  case (Tick d)
  assume "paced t0 s" "steady_clock [a]"
  then show ?thesis using Tick
    by (cases "sched s") (auto simp: paced_def)
next
  case Cancel
  assume "paced t0 s"
  then show ?thesis using Cancel
    by (cases "sched s") (simp_all add: paced_def)
qed

lemma steady_clock_Cons: "steady_clock (a # as) = (steady_clock [a] \<and> steady_clock as)"
  by (cases a) simp_all

lemma paced_exec: "paced t0 s \<Longrightarrow> steady_clock sch \<Longrightarrow> paced t0 (exec sch s)"
proof (induction sch arbitrary: s)
  case Nil
  then show ?case by simp
next
  case (Cons a sch)
  from Cons.prems(2) have "steady_clock [a]" "steady_clock sch"
    using steady_clock_Cons [of a sch] by simp_all
  then show ?case using Cons.IH Cons.prems(1) paced_step by simp
qed

lemma paced_start: "number j = 0 \<Longrightarrow> paced now (thread_start j now)"
  by (simp add: paced_def thread_start_def)

text \<open>
  Claim C6, as the code has it. At the head of the loop of line 68 the scheduler tests
  the time first and leaves when the finish time is reached; then the count, and leaves
  when \<open>max_number\<close> is reached; then it calls \<^verbatim>\<open>stopped.wait(interval)\<close>, and leaves
  when the flag is set, before the wait or during it. While less than the interval has
  passed it stays in the wait and nothing is spawned. Only when the wait has timed out
  does it increment the counter and spawn the worker, and then it is back at the head of
  the loop. So the wait comes before the spawn in every iteration: on every schedule
  whose clock does not go back, the intervals passed since the thread started are at
  least as many as the attempts counted, the first included.
\<close>

theorem loop_waits_before_each_spawn:
  "(sched s = CheckTime \<and> finish_time (master s) \<le> clock s
      \<longrightarrow> exec [Sched] s = s\<lparr>sched := Drain\<rparr>)
   \<and> (sched s = CheckTime \<and> clock s < finish_time (master s)
       \<and> int_ge_float (number (master s)) (max_number (master s))
      \<longrightarrow> exec [Sched, Sched] s = s\<lparr>sched := Drain\<rparr>)
   \<and> (sched s = CheckTime \<and> clock s < finish_time (master s)
       \<and> \<not> int_ge_float (number (master s)) (max_number (master s))
       \<and> is_set (stopped (master s))
      \<longrightarrow> exec [Sched, Sched, Sched] s = s\<lparr>sched := Drain\<rparr>)
   \<and> (sched s = CheckTime \<and> clock s < finish_time (master s)
       \<and> \<not> int_ge_float (number (master s)) (max_number (master s))
       \<and> \<not> is_set (stopped (master s)) \<and> of_int d < interval (master s) * 1000000
      \<longrightarrow> exec [Sched, Sched, Tick d, Sched] s
            = s\<lparr>clock := clock s + d, sched := Waiting (clock s)\<rparr>)
   \<and> (sched s = CheckTime \<and> clock s < finish_time (master s)
       \<and> \<not> int_ge_float (number (master s)) (max_number (master s))
       \<and> \<not> is_set (stopped (master s)) \<and> interval (master s) * 1000000 \<le> of_int d
      \<longrightarrow> exec [Sched, Sched, Tick d, Sched, Sched] s
            = s\<lparr>master := (master s)\<lparr>number := number (master s) + 1\<rparr>,
                workers := workers s @ [(number (master s) + 1, AtInc)],
                clock := clock s + d, sched := CheckTime\<rparr>)
   \<and> (sched s = CheckTime \<and> clock s < finish_time (master s)
       \<and> \<not> int_ge_float (number (master s)) (max_number (master s))
      \<longrightarrow> exec [Sched, Sched, Tick d, Cancel, Sched] s
            = s\<lparr>master := (master s)\<lparr>stopped := set_event (stopped (master s))\<rparr>,
                clock := clock s + d, sched := Drain\<rparr>)
   \<and> (RepeatingThread_init def_now now0 addr iv start_opt finish_opt max_time maxn ev = Inr j
       \<and> steady_clock sch
      \<longrightarrow> of_int (number (master (exec sch (thread_start j now)))) * (iv * 1000000)
            \<le> of_int (clock (exec sch (thread_start j now)) - now))"
proof -
  have pace: "of_int (number (master (exec sch (thread_start j now)))) * (iv * 1000000)
            \<le> of_int (clock (exec sch (thread_start j now)) - now)"
    if h: "RepeatingThread_init def_now now0 addr iv start_opt finish_opt max_time maxn ev = Inr j"
      and st: "steady_clock sch"
  proof -
    note c = init_counters [OF h]
    have "paced now (exec sch (thread_start j now))"
      using c st by (intro paced_exec paced_start)
    then show ?thesis
      using c by (simp add: paced_def exec_fields thread_start_def)
  qed
  have set: "is_set (set_event e)" for e by (cases e) simp
  show ?thesis
    using pace by (auto simp: run_step_def Let_def set)
qed

theorem loop_waits_before_each_spawn_witness:
  "sched (exec [Sched] \<lparr>master = \<lparr>address = ''http://x'', interval = 1, max_number = PosInf, start_time = 0,
        finish_time = 60000000, stopped = Event False, number = 0, successes = 0, threads_alive = 0\<rparr>,
      clock = 60000000, sched = CheckTime, workers = []\<rparr>) = Drain
   \<and> sched (exec [Sched, Sched] \<lparr>master = \<lparr>address = ''http://x'', interval = 1, max_number = Finite 0, start_time = 0,
        finish_time = 60000000, stopped = Event False, number = 0, successes = 0, threads_alive = 0\<rparr>,
      clock = 0, sched = CheckTime, workers = []\<rparr>) = Drain
   \<and> sched (exec [Sched, Sched, Sched] \<lparr>master = \<lparr>address = ''http://x'', interval = 1, max_number = PosInf, start_time = 0,
        finish_time = 60000000, stopped = Event True, number = 0, successes = 0, threads_alive = 0\<rparr>,
      clock = 0, sched = CheckTime, workers = []\<rparr>) = Drain
   \<and> workers (exec [Sched, Sched, Tick 400000, Sched] \<lparr>master = \<lparr>address = ''http://x'', interval = 1, max_number = PosInf, start_time = 0,
        finish_time = 60000000, stopped = Event False, number = 0, successes = 0, threads_alive = 0\<rparr>,
      clock = 0, sched = CheckTime, workers = []\<rparr>) = []
   \<and> workers (exec [Sched, Sched, Tick 1000000, Sched, Sched] \<lparr>master = \<lparr>address = ''http://x'', interval = 1, max_number = PosInf, start_time = 0,
        finish_time = 60000000, stopped = Event False, number = 0, successes = 0, threads_alive = 0\<rparr>,
      clock = 0, sched = CheckTime, workers = []\<rparr>) = [(1, AtInc)]
   \<and> workers (exec [Sched, Sched, Tick 1000000, Cancel, Sched] \<lparr>master = \<lparr>address = ''http://x'', interval = 1, max_number = PosInf, start_time = 0,
        finish_time = 60000000, stopped = Event False, number = 0, successes = 0, threads_alive = 0\<rparr>,
      clock = 0, sched = CheckTime, workers = []\<rparr>) = []
   \<and> RepeatingThread_init 0 0 ''http://x'' 1 (Some 0) (Some 60000000) None PosInf None
       = Inr \<lparr>address = ''http://x'', interval = 1, max_number = PosInf, start_time = 0,
        finish_time = 60000000, stopped = Event False, number = 0, successes = 0, threads_alive = 0\<rparr>
   \<and> steady_clock [Sched, Sched, Sched, Tick 1000000, Sched, Sched]
   \<and> real_of_int (number (master (exec [Sched, Sched, Sched, Tick 1000000, Sched, Sched]
        (thread_start \<lparr>address = ''http://x'', interval = 1, max_number = PosInf, start_time = 0,
        finish_time = 60000000, stopped = Event False, number = 0, successes = 0, threads_alive = 0\<rparr> 0)))) * (1 * 1000000)
      \<le> real_of_int (clock (exec [Sched, Sched, Sched, Tick 1000000, Sched, Sched]
        (thread_start \<lparr>address = ''http://x'', interval = 1, max_number = PosInf, start_time = 0,
        finish_time = 60000000, stopped = Event False, number = 0, successes = 0, threads_alive = 0\<rparr> 0)) - 0)"
proof -
  have h: "RepeatingThread_init 0 0 ''http://x'' 1 (Some 0) (Some 60000000) None PosInf None
       = Inr \<lparr>address = ''http://x'', interval = 1, max_number = PosInf, start_time = 0,
        finish_time = 60000000, stopped = Event False, number = 0, successes = 0, threads_alive = 0\<rparr>"
    by (simp add: RepeatingThread_init_def default_start_time_def resolve_finish_time_def)
  have st: "steady_clock [Sched, Sched, Sched, Tick 1000000, Sched, Sched]"
    by simp
  have a: "sched (exec [Sched] \<lparr>master = \<lparr>address = ''http://x'', interval = 1, max_number = PosInf, start_time = 0,
        finish_time = 60000000, stopped = Event False, number = 0, successes = 0, threads_alive = 0\<rparr>,
      clock = 60000000, sched = CheckTime, workers = []\<rparr>) = Drain"
    using loop_waits_before_each_spawn [where s = "\<lparr>master = \<lparr>address = ''http://x'', interval = 1, max_number = PosInf, start_time = 0,
        finish_time = 60000000, stopped = Event False, number = 0, successes = 0, threads_alive = 0\<rparr>,
      clock = 60000000, sched = CheckTime, workers = []\<rparr>"] by simp
  have b: "sched (exec [Sched, Sched] \<lparr>master = \<lparr>address = ''http://x'', interval = 1, max_number = Finite 0, start_time = 0,
        finish_time = 60000000, stopped = Event False, number = 0, successes = 0, threads_alive = 0\<rparr>,
      clock = 0, sched = CheckTime, workers = []\<rparr>) = Drain"
    using loop_waits_before_each_spawn [where s = "\<lparr>master = \<lparr>address = ''http://x'', interval = 1, max_number = Finite 0, start_time = 0,
        finish_time = 60000000, stopped = Event False, number = 0, successes = 0, threads_alive = 0\<rparr>,
      clock = 0, sched = CheckTime, workers = []\<rparr>"] by simp
  have c: "sched (exec [Sched, Sched, Sched] \<lparr>master = \<lparr>address = ''http://x'', interval = 1, max_number = PosInf, start_time = 0,
        finish_time = 60000000, stopped = Event True, number = 0, successes = 0, threads_alive = 0\<rparr>,
      clock = 0, sched = CheckTime, workers = []\<rparr>) = Drain"
    using loop_waits_before_each_spawn [where s = "\<lparr>master = \<lparr>address = ''http://x'', interval = 1, max_number = PosInf, start_time = 0,
        finish_time = 60000000, stopped = Event True, number = 0, successes = 0, threads_alive = 0\<rparr>,
      clock = 0, sched = CheckTime, workers = []\<rparr>"] by simp
  have d: "workers (exec [Sched, Sched, Tick 400000, Sched] \<lparr>master = \<lparr>address = ''http://x'', interval = 1, max_number = PosInf, start_time = 0,
        finish_time = 60000000, stopped = Event False, number = 0, successes = 0, threads_alive = 0\<rparr>,
      clock = 0, sched = CheckTime, workers = []\<rparr>) = []"
    using loop_waits_before_each_spawn [where s = "\<lparr>master = \<lparr>address = ''http://x'', interval = 1, max_number = PosInf, start_time = 0,
        finish_time = 60000000, stopped = Event False, number = 0, successes = 0, threads_alive = 0\<rparr>,
      clock = 0, sched = CheckTime, workers = []\<rparr>" and d = 400000] by simp
  have e: "workers (exec [Sched, Sched, Tick 1000000, Sched, Sched] \<lparr>master = \<lparr>address = ''http://x'', interval = 1, max_number = PosInf, start_time = 0,
        finish_time = 60000000, stopped = Event False, number = 0, successes = 0, threads_alive = 0\<rparr>,
      clock = 0, sched = CheckTime, workers = []\<rparr>) = [(1, AtInc)]"
    using loop_waits_before_each_spawn [where s = "\<lparr>master = \<lparr>address = ''http://x'', interval = 1, max_number = PosInf, start_time = 0,
        finish_time = 60000000, stopped = Event False, number = 0, successes = 0, threads_alive = 0\<rparr>,
      clock = 0, sched = CheckTime, workers = []\<rparr>" and d = 1000000] by simp
  have f: "workers (exec [Sched, Sched, Tick 1000000, Cancel, Sched] \<lparr>master = \<lparr>address = ''http://x'', interval = 1, max_number = PosInf, start_time = 0,
        finish_time = 60000000, stopped = Event False, number = 0, successes = 0, threads_alive = 0\<rparr>,
      clock = 0, sched = CheckTime, workers = []\<rparr>) = []"
    using loop_waits_before_each_spawn [where s = "\<lparr>master = \<lparr>address = ''http://x'', interval = 1, max_number = PosInf, start_time = 0,
        finish_time = 60000000, stopped = Event False, number = 0, successes = 0, threads_alive = 0\<rparr>,
      clock = 0, sched = CheckTime, workers = []\<rparr>" and d = 1000000] by simp
  have g: "real_of_int (number (master (exec [Sched, Sched, Sched, Tick 1000000, Sched, Sched]
        (thread_start \<lparr>address = ''http://x'', interval = 1, max_number = PosInf, start_time = 0,
        finish_time = 60000000, stopped = Event False, number = 0, successes = 0, threads_alive = 0\<rparr> 0)))) * (1 * 1000000)
      \<le> real_of_int (clock (exec [Sched, Sched, Sched, Tick 1000000, Sched, Sched]
        (thread_start \<lparr>address = ''http://x'', interval = 1, max_number = PosInf, start_time = 0,
        finish_time = 60000000, stopped = Event False, number = 0, successes = 0, threads_alive = 0\<rparr> 0)) - 0)"
    using h st loop_waits_before_each_spawn [where sch = "[Sched, Sched, Sched, Tick 1000000, Sched, Sched]" and now = 0 and iv = 1
        and j = "\<lparr>address = ''http://x'', interval = 1, max_number = PosInf, start_time = 0,
        finish_time = 60000000, stopped = Event False, number = 0, successes = 0, threads_alive = 0\<rparr>" and def_now = 0 and ?now0.0 = 0 and addr = "''http://x''"
        and start_opt = "Some 0" and finish_opt = "Some 60000000" and max_time = None
        and maxn = PosInf and ev = None]
    by blast
  show ?thesis
    using h st a b c d e f g by blast
qed

text \<open>
  Claim C6 as stated fails at a job with an interval of one second, no limit and a
  finish time a minute away, started at its start time with the flag unset. With no
  time passing, the scheduler of the code comes to rest in the wait of line 71 with
  the counter at 0 and no worker; the loop in the order the claim gives has by then
  counted attempt 1 and spawned its worker, and waits afterwards.
\<close>

theorem first_attempt_waits_an_interval:
  "case RepeatingThread_init 0 0 ''http://x'' 1 (Some 0) (Some 60000000) None PosInf None of
     Inl e \<Rightarrow> False
   | Inr j \<Rightarrow>
       sched (exec [Sched] (thread_start j 0)) = CheckTime
       \<and> exec [Sched, Sched, Sched, Sched, Sched, Sched] (thread_start j 0)
           = \<lparr>master = j, clock = 0, sched = Waiting 0, workers = []\<rparr>
       \<and> spec_exec [Sched, Sched, Sched, Sched, Sched] (spec_loop_start j 0)
           = \<lparr>spec_master = j\<lparr>number := 1\<rparr>, spec_clock = 0, spec_sched = SpecWaiting 0,
              spec_workers = [(1, AtInc)]\<rparr>"
  by (simp add: RepeatingThread_init_def default_start_time_def resolve_finish_time_def
                thread_start_def run_step_def spec_loop_start_def spec_loop_step_def)

section \<open>Two intervals between start and finish\<close>

text \<open>
  A thread that starts at or after the start time of its job, with the finish time two
  intervals after the start time and a clock that does not go back, spawns at most two
  workers, on every schedule and whatever \<open>max_number\<close> is; and a time test that reads
  exactly the finish time leaves the loop.
\<close>

lemma two_intervals_step:
  assumes "two_intervals t0 s" "steady_clock [a]"
    "of_int (finish_time (master s) - t0) \<le> 2 * (interval (master s) * 1000000)"
  shows "two_intervals t0 (step a s)"
proof -
  have p: "paced t0 (step a s)"
    using assms(1,2) by (simp add: two_intervals_def paced_step)
  show ?thesis
  proof (cases a)
    case Sched
    show ?thesis
    proof (cases "sched s")
      case CheckTime
      have le: "of_int (number (master s)) * (interval (master s) * 1000000)
                  \<le> of_int (clock s - t0)"
        using assms(1) by (simp add: two_intervals_def paced_def)
      have "of_int (number (master s)) * (interval (master s) * 1000000)
              < 2 * (interval (master s) * 1000000)"
        if "clock s < finish_time (master s)"
      proof -
        have "real_of_int (clock s - t0) < real_of_int (finish_time (master s) - t0)"
          using that by simp
        then show ?thesis using le assms(3) by linarith
      qed
      then show ?thesis
        using assms(1) p Sched CheckTime
        by (auto simp: two_intervals_def run_step_def Let_def)
    next
      case Body
      have lt: "of_int (number (master s)) * (interval (master s) * 1000000)
              < 2 * (interval (master s) * 1000000)"
        using assms(1) Body by (simp add: two_intervals_def)
      have n0: "0 \<le> number (master s)"
        using assms(1) by (simp add: two_intervals_def)
      have "(of_int (number (master s)) - 2) * (interval (master s) * 1000000) < 0"
        using lt by (simp add: algebra_simps)
      moreover have "number (master s) \<le> 2" using assms(1) by (simp add: two_intervals_def)
      ultimately have "number (master s) < 2"
        by (cases "number (master s) = 2") auto
      then show ?thesis
        using assms p Sched Body n0
        by (auto simp: two_intervals_def run_step_def Let_def)
    qed (use assms p Sched in \<open>auto simp: two_intervals_def run_step_def Let_def\<close>)
  next
    case (Work k r)
    then show ?thesis using assms(1) p
      by (simp add: two_intervals_def work_step_fields)
  next
    case (Tick d)
    then show ?thesis using assms(1) p by (simp add: two_intervals_def)
  next
    case Cancel
    then show ?thesis using assms(1) p by (simp add: two_intervals_def)
  qed
qed

lemma two_intervals_exec:
  "two_intervals t0 s \<Longrightarrow> steady_clock sch \<Longrightarrow>
   of_int (finish_time (master s) - t0) \<le> 2 * (interval (master s) * 1000000) \<Longrightarrow>
   two_intervals t0 (exec sch s)"
proof (induction sch arbitrary: s)
  case Nil
  then show ?case by simp
next
  case (Cons a sch)
  from Cons.prems(2) have st: "steady_clock [a]" "steady_clock sch"
    using steady_clock_Cons [of a sch] by simp_all
  have "two_intervals t0 (step a s)"
    using Cons.prems(1) st(1) Cons.prems(3) by (rule two_intervals_step)
  then show ?case
    using Cons.IH [of "step a s"] st(2) Cons.prems(3) by (simp add: step_fields)
qed

lemma at_most_two_from_start_time:
  assumes "RepeatingThread_init def_now now0 addr iv start_opt finish_opt max_time maxn ev = Inr j"
    and "of_int (finish_time j - start_time j) = 2 * (iv * 1000000)"
    and "start_time j \<le> now" and "steady_clock sch"
  shows "length (workers (exec sch (thread_start j now))) \<le> 2"
proof -
  note c = init_counters [OF assms(1)]
  have "two_intervals now (thread_start j now)"
    using c by (simp add: two_intervals_def paced_start) (simp add: thread_start_def)
  moreover have "of_int (finish_time (master (thread_start j now)) - now)
      \<le> 2 * (interval (master (thread_start j now)) * 1000000)"
    using assms(2,3) c by (simp add: thread_start_def)
  ultimately have "two_intervals now (exec sch (thread_start j now))"
    using assms(4) by (intro two_intervals_exec)
  moreover have "consistent (exec sch (thread_start j now))"
    using c by (intro consistent_exec consistent_start)
  ultimately show ?thesis
    by (simp add: two_intervals_def consistent_def)
qed

lemma check_at_finish_time_leaves:
  "sched s = CheckTime \<Longrightarrow> clock s = finish_time (master s) \<Longrightarrow> run_step s = s\<lparr>sched := Drain\<rparr>"
  by (simp add: run_step_def)

text \<open>
  Claim C5, at a job with unbounded \<open>max_number\<close>, an interval of one second, a start time
  ten seconds after the thread starts and \<open>max_time\<close> of two seconds, so that the finish
  time is the start time plus two intervals. Since line 66 does not wait, the scheduler
  spawns a worker after each of the first three seconds: three workers by clock value
  3 s, seven seconds ahead of the start time and nine ahead of the finish time.
\<close>

theorem run_spawns_three_within_two_intervals:
  "case RepeatingThread_init 0 0 ''http://x'' 1 (Some 10000000) None (Some 2000000) PosInf None of
     Inl e \<Rightarrow> False
   | Inr j \<Rightarrow>
       start_time j = 10000000 \<and> finish_time j = 12000000
       \<and> clock (exec [Sched, Sched, Sched, Tick 1000000, Sched, Sched,
                       Sched, Sched, Tick 1000000, Sched, Sched,
                       Sched, Sched, Tick 1000000, Sched, Sched] (thread_start j 0)) = 3000000
       \<and> workers (exec [Sched, Sched, Sched, Tick 1000000, Sched, Sched,
                         Sched, Sched, Tick 1000000, Sched, Sched,
                         Sched, Sched, Tick 1000000, Sched, Sched] (thread_start j 0))
            = [(1, AtInc), (2, AtInc), (3, AtInc)]"
  by (simp add: RepeatingThread_init_def default_start_time_def resolve_finish_time_def
                dt_add_def datetime_max_def thread_start_def run_step_def)

end
